theory Spec2Isabelle
  imports Main "HOL-Library.AList"
begin

section \<open>goinput: filters, validators and the tree of validation errors\<close>

text \<open>
  A shallow embedding of \<^verbatim>\<open>input.go\<close>. The opaque \<^verbatim>\<open>interface{}\<close> value of an
  input is a type variable \<open>'v\<close>; a Go \<^verbatim>\<open>error\<close> is a type variable \<open>'e\<close>, and
  an \<^verbatim>\<open>error\<close> result that may be \<^verbatim>\<open>nil\<close> is an \<open>'e option\<close>. A Go map with
  string keys is an association list read with \<open>map_of\<close> and written with
  \<open>AList.update\<close>; the order of the list is the order in which one run of
  \<^verbatim>\<open>range\<close> visits the entries, which Go leaves open, so a theorem about every list
  with distinct keys is a theorem about every iteration order.
\<close>

subsection \<open>Filter and Validator\<close>

text \<open>\<^verbatim>\<open>type Filter func(value interface{}) interface{}\<close>\<close>

type_synonym 'v Filter = "'v \<Rightarrow> 'v"

text \<open>
  \<^verbatim>\<open>type Validator interface { Validate(value interface{}) error }\<close>:
  a validator is its \<^verbatim>\<open>Validate\<close> method, \<open>None\<close> for a \<^verbatim>\<open>nil\<close> error.
  Filters and validators are the caller's code; they are taken to return on every
  value and to have no effect but their result.
\<close>

type_synonym ('v, 'e) Validator = "'v \<Rightarrow> 'e option"

subsection \<open>ValidationError\<close>

text \<open>
  \<^verbatim>\<open>type ValidationError struct { Errors []error; Children map[string]*ValidationError }\<close>.
  The pointers to the children are owned subtrees, with no \<^verbatim>\<open>nil\<close> child and no
  cycle: these are the trees that the code of this file builds. A tree built by hand
  with \<^verbatim>\<open>nil\<close> children is a \<open>ValidationError_nilable\<close>, further below.
  A \<^verbatim>\<open>nil\<close> slice or map and an empty one are both the empty list;
  the code only takes their \<^verbatim>\<open>len\<close>, ranges over them and appends or stores, which
  does not tell them apart.
\<close>

datatype 'e ValidationError =
  ValidationError (Errors: "'e list") (Children: "(string \<times> 'e ValidationError) list")

text \<open>
  \<^verbatim>\<open>NewValidationError(errs, children)\<close>: an argument that is \<^verbatim>\<open>nil\<close> (\<open>None\<close>) is
  replaced by a fresh empty container.
\<close>

definition NewValidationError ::
  "'e list option \<Rightarrow> (string \<times> 'e ValidationError) list option \<Rightarrow> 'e ValidationError" where
  "NewValidationError errs children =
     (let children = (case children of None \<Rightarrow> [] | Some c \<Rightarrow> c);
          errs = (case errs of None \<Rightarrow> [] | Some e \<Rightarrow> e)
      in ValidationError errs children)"

text \<open>
  \<^verbatim>\<open>Empty()\<close>: \<open>empty\<close> starts as true; a non-empty \<^verbatim>\<open>Errors\<close> makes it false;
  otherwise, when there are children, the loop over them makes it false and breaks at
  the first child that is not empty. \<open>Empty_range\<close> is that loop over the entries
  still to visit.
\<close>

fun Empty :: "'e ValidationError \<Rightarrow> bool"
  and Empty_range :: "(string \<times> 'e ValidationError) list \<Rightarrow> bool" where
  "Empty (ValidationError errors children) =
     (if length errors \<noteq> 0 then False
      else if length children \<noteq> 0 then Empty_range children
      else True)"
| "Empty_range [] = True"
| "Empty_range ((name, child) # rest) =
     (if \<not> Empty child then False else Empty_range rest)"

text \<open>
  \<^verbatim>\<open>fmt.Sprintf("%q, %q", a, b)\<close> of the standard library writes the first operand
  under \<^verbatim>\<open>%q\<close>, the literal text of the format between the two verbs, and the second
  operand under \<^verbatim>\<open>%q\<close>. How \<^verbatim>\<open>fmt\<close> renders a slice of errors and a map of
  pointers under \<^verbatim>\<open>%q\<close> is left open: the two renderings are parameters.
\<close>

definition Sprintf_q_q :: "string \<Rightarrow> string \<Rightarrow> string" where
  "Sprintf_q_q a b = a @ '', '' @ b"

text \<open>
  \<^verbatim>\<open>Error()\<close>: the named result \<open>errStr\<close> starts as the empty string and is
  assigned only when the tree is not empty.
\<close>

definition Error ::
  "('e list \<Rightarrow> string) \<Rightarrow> ((string \<times> 'e ValidationError) list \<Rightarrow> string) \<Rightarrow>
   'e ValidationError \<Rightarrow> string" where
  "Error fmt_errors fmt_children errs =
     (if \<not> Empty errs
      then Sprintf_q_q (fmt_errors (Errors errs)) (fmt_children (Children errs))
      else [])"

subsection \<open>BasicInput\<close>

record ('v, 'e) BasicInput =
  Value :: 'v
  BreaksValidationChain :: bool
  Validators :: "('v, 'e) Validator list"
  Filters :: "'v Filter list"

text \<open>
  The first loop of \<^verbatim>\<open>BasicInput.FilterAndValidate\<close>:
  \<^verbatim>\<open>for _, filter := range input.Filters { input.Value = filter(input.Value) }\<close>.
  The receiver is a copy of the struct, so the assignment is an update of that copy.
\<close>

fun range_Filters :: "'v Filter list \<Rightarrow> ('v, 'e) BasicInput \<Rightarrow> ('v, 'e) BasicInput" where
  "range_Filters [] input = input"
| "range_Filters (filter' # rest) input =
     range_Filters rest (input\<lparr>Value := filter' (Value input)\<rparr>)"

text \<open>
  The second loop: each validator is run on the filtered value; an error that is not
  \<^verbatim>\<open>nil\<close> is appended to \<^verbatim>\<open>errors.Errors\<close>, and the loop breaks there when
  \<^verbatim>\<open>BreaksValidationChain\<close> is set.
\<close>

fun range_Validators ::
  "('v, 'e) Validator list \<Rightarrow> ('v, 'e) BasicInput \<Rightarrow> 'e ValidationError \<Rightarrow> 'e ValidationError" where
  "range_Validators [] input errors = errors"
| "range_Validators (validator # rest) input errors =
     (case validator (Value input) of
        None \<Rightarrow> range_Validators rest input errors
      | Some valErr \<Rightarrow>
          (let errors = ValidationError (Errors errors @ [valErr]) (Children errors)
           in if BreaksValidationChain input then errors
              else range_Validators rest input errors))"

definition BasicInput_FilterAndValidate ::
  "('v, 'e) BasicInput \<Rightarrow> ('v, 'e) BasicInput \<times> 'e ValidationError" where
  "BasicInput_FilterAndValidate input =
     (let errors = NewValidationError None None;
          input = range_Filters (Filters input) input;
          errors = range_Validators (Validators input) input errors
      in (input, errors))"

subsection \<open>BasicInputGroup\<close>

text \<open>
  \<^verbatim>\<open>type BasicInputGroup map[string]BasicInput\<close>: the members of a group are
  \<^verbatim>\<open>BasicInput\<close> structs, by the type of the map. A well-formed group has each
  field name once.
\<close>

type_synonym ('v, 'e) BasicInputGroup = "(string \<times> ('v, 'e) BasicInput) list"

text \<open>
  The loop of \<^verbatim>\<open>BasicInputGroup.FilterAndValidate\<close> over the entries still to
  visit, on the state \<open>(filteredGroup, errs)\<close>. The call
  \<^verbatim>\<open>input.FilterAndValidate()\<close> is the method of \<^verbatim>\<open>BasicInput\<close>, which returns
  its receiver, so the assertion \<^verbatim>\<open>filteredInput.(BasicInput)\<close> always holds.
\<close>

fun range_BasicInputGroup ::
  "('v, 'e) BasicInputGroup \<Rightarrow> ('v, 'e) BasicInputGroup \<times> 'e ValidationError \<Rightarrow>
   ('v, 'e) BasicInputGroup \<times> 'e ValidationError" where
  "range_BasicInputGroup [] (filteredGroup, errs) = (filteredGroup, errs)"
| "range_BasicInputGroup ((fieldName, input) # rest) (filteredGroup, errs) =
     (let (filteredInput, valErrs) = BasicInput_FilterAndValidate input;
          errs = (if \<not> Empty valErrs
                  then ValidationError (Errors errs)
                         (AList.update fieldName valErrs (Children errs))
                  else errs);
          filteredGroup = AList.update fieldName filteredInput filteredGroup
      in range_BasicInputGroup rest (filteredGroup, errs))"

definition BasicInputGroup_FilterAndValidate ::
  "('v, 'e) BasicInputGroup \<Rightarrow> ('v, 'e) BasicInputGroup \<times> 'e ValidationError" where
  "BasicInputGroup_FilterAndValidate ig =
     range_BasicInputGroup ig ([], NewValidationError None None)"

text \<open>
  \<^verbatim>\<open>BasicInputGroup.Value(fieldName)\<close>: the value of the field, or the panic of the
  \<^verbatim>\<open>else\<close> branch.
\<close>

datatype panic = Panic string

definition BasicInputGroup_Value :: "('v, 'e) BasicInputGroup \<Rightarrow> string \<Rightarrow> panic + 'v" where
  "BasicInputGroup_Value ig fieldName =
     (case map_of ig fieldName of
        Some input \<Rightarrow> Inr (Value input)
      | None \<Rightarrow> Inl (Panic ''Key does not exist''))"

subsection \<open>A ValidationError built by hand\<close>

text \<open>
  The fields of \<^verbatim>\<open>ValidationError\<close> are exported and a child is a
  \<^verbatim>\<open>*ValidationError\<close>, so a caller can build a tree whose map holds a \<^verbatim>\<open>nil\<close>
  pointer under a name. \<^verbatim>\<open>NewValidationError\<close> and the two
  \<^verbatim>\<open>FilterAndValidate\<close> methods never store one. \<open>ValidationError_nilable\<close> is the
  struct with such children, \<open>None\<close> for \<^verbatim>\<open>nil\<close>. It is still a finite tree: a
  cycle through the pointers is not a value of it.
\<close>

datatype 'e ValidationError_nilable =
  ValidationError_nilable (Errors_nilable: "'e list")
    (Children_nilable: "(string \<times> 'e ValidationError_nilable option) list")

text \<open>
  \<^verbatim>\<open>Empty()\<close> on such a tree is the same code. \<^verbatim>\<open>Empty\<close> has a value receiver, so
  the call \<^verbatim>\<open>child.Empty()\<close> reads the struct behind the pointer, and on a \<^verbatim>\<open>nil\<close>
  pointer that is the panic of the runtime. A panic in the call for a child ends the
  calls around it as well. The order of the list is the order in which the loop visits
  the children.
\<close>

fun Empty_nilable :: "'e ValidationError_nilable \<Rightarrow> panic + bool"
  and Empty_range_nilable ::
    "(string \<times> 'e ValidationError_nilable option) list \<Rightarrow> panic + bool" where
  "Empty_nilable (ValidationError_nilable errors children) =
     (if length errors \<noteq> 0 then Inr False
      else if length children \<noteq> 0 then Empty_range_nilable children
      else Inr True)"
| "Empty_range_nilable [] = Inr True"
| "Empty_range_nilable ((name, child) # rest) =
     (case child of
        None \<Rightarrow>
          Inl (Panic ''runtime error: invalid memory address or nil pointer dereference'')
      | Some errs \<Rightarrow>
          (case Empty_nilable errs of
             Inl p \<Rightarrow> Inl p
           | Inr childEmpty \<Rightarrow>
               if \<not> childEmpty then Inr False else Empty_range_nilable rest))"

text \<open>No child pointer of the tree is \<^verbatim>\<open>nil\<close>, at any depth.\<close>

fun no_nil :: "'e ValidationError_nilable \<Rightarrow> bool"
  and no_nil_range :: "(string \<times> 'e ValidationError_nilable option) list \<Rightarrow> bool" where
  "no_nil (ValidationError_nilable errors children) = no_nil_range children"
| "no_nil_range [] = True"
| "no_nil_range ((name, child) # rest) =
     (case child of None \<Rightarrow> False | Some errs \<Rightarrow> no_nil errs \<and> no_nil_range rest)"

text \<open>A tree that the code builds, as a tree with pointers to its children.\<close>

fun nilable :: "'e ValidationError \<Rightarrow> 'e ValidationError_nilable"
  and nilable_range ::
    "(string \<times> 'e ValidationError) list \<Rightarrow> (string \<times> 'e ValidationError_nilable option) list" where
  "nilable (ValidationError errors children) =
     ValidationError_nilable errors (nilable_range children)"
| "nilable_range [] = []"
| "nilable_range ((name, child) # rest) = (name, Some (nilable child)) # nilable_range rest"

subsection \<open>Example inputs\<close>

text \<open>
  Two validators over strings, with strings as errors, and the inputs on which the
  theorems below are instantiated.
\<close>

definition alwaysFail :: "string \<Rightarrow> (string, string) Validator" where
  "alwaysFail msg = (\<lambda>value. Some msg)"

definition minLength :: "nat \<Rightarrow> (string, string) Validator" where
  "minLength n = (\<lambda>value. if length value < n then Some ''too short'' else None)"

definition valid_field :: "(string, string) BasicInput" where
  "valid_field = \<lparr>Value = ''hello'', BreaksValidationChain = False,
     Validators = [minLength 3], Filters = [rev, take 3]\<rparr>"

definition breaking_field :: "(string, string) BasicInput" where
  "breaking_field = \<lparr>Value = ''hello world'', BreaksValidationChain = True,
     Validators = [minLength 2, minLength 4, alwaysFail ''a'', alwaysFail ''b''],
     Filters = [take 3]\<rparr>"

definition collecting_field :: "(string, string) BasicInput" where
  "collecting_field = \<lparr>Value = ''hello world'', BreaksValidationChain = False,
     Validators = [alwaysFail ''a'', minLength 4, minLength 2, alwaysFail ''b''],
     Filters = [take 3]\<rparr>"

definition too_young_field :: "(string, string) BasicInput" where
  "too_young_field = \<lparr>Value = ''12'', BreaksValidationChain = False,
     Validators = [alwaysFail ''too young''], Filters = []\<rparr>"

definition name_age_group :: "(string, string) BasicInputGroup" where
  "name_age_group = [(''name'', valid_field), (''age'', too_young_field)]"




section \<open>Properties\<close>

subsection \<open>The two loops of a BasicInput\<close>

lemma range_Filters_eq:
  "range_Filters filters input =
     input\<lparr>Value := foldl (\<lambda>value f. f value) (Value input) filters\<rparr>"
  by (induction filters arbitrary: input) simp_all

lemma Children_range_Validators:
  "Children (range_Validators validators input errors) = Children errors"
  by (induction validators arbitrary: errors) (simp_all add: Let_def split: option.split)

lemma Errors_range_Validators_all:
  "\<not> BreaksValidationChain input \<Longrightarrow>
   Errors (range_Validators validators input errors) =
     Errors errors @ List.map_filter (\<lambda>validator. validator (Value input)) validators"
  by (induction validators arbitrary: errors)
     (simp_all add: Let_def split: option.split)

lemma Errors_range_Validators_break:
  "BreaksValidationChain input \<Longrightarrow>
   Errors (range_Validators validators input errors) =
     Errors errors @ take 1 (List.map_filter (\<lambda>validator. validator (Value input)) validators)"
  by (induction validators arbitrary: errors)
     (simp_all add: Let_def split: option.split)

lemma fst_BasicInput_FilterAndValidate:
  "fst (BasicInput_FilterAndValidate input) =
     input\<lparr>Value := foldl (\<lambda>value f. f value) (Value input) (Filters input)\<rparr>"
  by (simp add: BasicInput_FilterAndValidate_def Let_def range_Filters_eq)

lemma Children_BasicInput_FilterAndValidate:
  "Children (snd (BasicInput_FilterAndValidate input)) = []"
  by (simp add: BasicInput_FilterAndValidate_def Let_def Children_range_Validators
      NewValidationError_def)

lemma Errors_BasicInput_FilterAndValidate:
  "Errors (snd (BasicInput_FilterAndValidate input)) =
     (let failures = List.map_filter
            (\<lambda>validator. validator (Value (fst (BasicInput_FilterAndValidate input))))
            (Validators input)
      in if BreaksValidationChain input then take 1 failures else failures)"
  by (simp add: BasicInput_FilterAndValidate_def Let_def range_Filters_eq
      Errors_range_Validators_all Errors_range_Validators_break NewValidationError_def)

lemma map_filter_all_None:
  "(\<forall>x \<in> set xs. f x = None) \<Longrightarrow> List.map_filter f xs = []"
  by (induction xs) simp_all

lemma map_filter_append:
  "List.map_filter f (xs @ ys) = List.map_filter f xs @ List.map_filter f ys"
  by (simp add: List.map_filter_def)

text \<open>
  C2. A BasicInput whose \<^verbatim>\<open>BreaksValidationChain\<close> is set and of whose validators two
  or more fail on the filtered value, that is on the \<^verbatim>\<open>Filters\<close> applied in order
  to the given \<^verbatim>\<open>Value\<close>: the returned \<^verbatim>\<open>Errors\<close> has length exactly 1 and holds
  the error of the first failing validator. The validator list splits into validators
  that pass, the first one that fails, and the ones after it, which are skipped:
  whatever they are, they add nothing.
\<close>

theorem BasicInput_breaks_on_first_failure:
  assumes brk: "BreaksValidationChain input"
    and two: "2 \<le> length (filter
        (\<lambda>validator.
           validator (foldl (\<lambda>value f. f value) (Value input) (Filters input)) \<noteq> None)
        (Validators input))"
  shows "length (Errors (snd (BasicInput_FilterAndValidate input))) = 1 \<and>
    (\<exists>passing validator valErr skipped.
       Validators input = passing @ validator # skipped \<and>
       (\<forall>p \<in> set passing.
          p (foldl (\<lambda>value f. f value) (Value input) (Filters input)) = None) \<and>
       validator (foldl (\<lambda>value f. f value) (Value input) (Filters input)) = Some valErr \<and>
       Errors (snd (BasicInput_FilterAndValidate input)) = [valErr])"
proof -
  let ?v = "foldl (\<lambda>value f. f value) (Value input) (Filters input)"
  let ?fails = "\<lambda>validator. validator ?v \<noteq> None"
  have filtered: "Value (fst (BasicInput_FilterAndValidate input)) = ?v"
    by (simp add: fst_BasicInput_FilterAndValidate)
  from two have "filter ?fails (Validators input) \<noteq> []"
    by auto
  then have "\<exists>validator \<in> set (Validators input). ?fails validator"
    by (simp add: filter_empty_conv)
  then have "\<exists>passing validator skipped.
      Validators input = passing @ validator # skipped \<and> ?fails validator \<and>
      (\<forall>p \<in> set passing. \<not> ?fails p)"
    by (rule split_list_first_prop)
  then obtain passing validator skipped where
    split: "Validators input = passing @ validator # skipped" and
    fails: "?fails validator" and
    pass: "\<forall>p \<in> set passing. \<not> ?fails p"
    by blast
  from fails obtain valErr where valErr: "validator ?v = Some valErr"
    by auto
  from pass have none: "List.map_filter (\<lambda>validator. validator ?v) passing = []"
    by (intro map_filter_all_None) simp
  have "Errors (snd (BasicInput_FilterAndValidate input)) =
      take 1 (List.map_filter (\<lambda>validator. validator ?v) (Validators input))"
    using brk by (simp add: Errors_BasicInput_FilterAndValidate filtered)
  also have "\<dots> = [valErr]"
    by (simp add: split map_filter_append none valErr)
  finally have errs: "Errors (snd (BasicInput_FilterAndValidate input)) = [valErr]" .
  from split pass valErr errs show ?thesis
    by auto
qed

text \<open>
  On \<open>breaking_field\<close> the filter cuts \<open>''hello world''\<close> to \<open>''hel''\<close>. On that
  value the first validator passes and the other three fail, \<open>minLength 4\<close> first;
  only its error is reported. On the value as given \<open>minLength 4\<close> would pass.
\<close>

theorem BasicInput_breaks_on_first_failure_witness:
  "BreaksValidationChain breaking_field \<and>
   foldl (\<lambda>value f. f value) (Value breaking_field) (Filters breaking_field) = ''hel'' \<and>
   filter (\<lambda>validator. validator ''hel'' \<noteq> None) (Validators breaking_field) =
     [minLength 4, alwaysFail ''a'', alwaysFail ''b''] \<and>
   minLength 4 (Value breaking_field) = None \<and>
   length (Errors (snd (BasicInput_FilterAndValidate breaking_field))) = 1 \<and>
   (\<exists>passing validator valErr skipped.
       Validators breaking_field = passing @ validator # skipped \<and>
       (\<forall>p \<in> set passing. p ''hel'' = None) \<and>
       validator ''hel'' = Some valErr \<and>
       Errors (snd (BasicInput_FilterAndValidate breaking_field)) = [valErr]) \<and>
   BasicInput_FilterAndValidate breaking_field =
     (breaking_field\<lparr>Value := ''hel''\<rparr>, ValidationError [''too short''] [])"
proof -
  have brk: "BreaksValidationChain breaking_field"
    by (simp add: breaking_field_def)
  have v: "foldl (\<lambda>value f. f value) (Value breaking_field) (Filters breaking_field) = ''hel''"
    by (simp add: breaking_field_def)
  have failing: "filter (\<lambda>validator. validator ''hel'' \<noteq> None) (Validators breaking_field) =
      [minLength 4, alwaysFail ''a'', alwaysFail ''b'']"
    by (simp add: breaking_field_def alwaysFail_def minLength_def)
  have raw: "minLength 4 (Value breaking_field) = None"
    by (simp add: breaking_field_def minLength_def)
  have two: "2 \<le> length (filter
        (\<lambda>validator.
           validator (foldl (\<lambda>value f. f value) (Value breaking_field)
             (Filters breaking_field)) \<noteq> None)
        (Validators breaking_field))"
    unfolding v failing by simp
  have run: "BasicInput_FilterAndValidate breaking_field =
      (breaking_field\<lparr>Value := ''hel''\<rparr>, ValidationError [''too short''] [])"
    by (simp add: breaking_field_def BasicInput_FilterAndValidate_def NewValidationError_def
        alwaysFail_def minLength_def)
  note first = BasicInput_breaks_on_first_failure [OF brk two, unfolded v]
  from first brk v failing raw run show ?thesis
    by blast
qed

text \<open>
  C3. A BasicInput whose \<^verbatim>\<open>BreaksValidationChain\<close> is not set: the returned
  \<^verbatim>\<open>Errors\<close> is the list of the errors of the validators that fail on the filtered
  value, that is on the \<^verbatim>\<open>Filters\<close> applied in order to the given \<^verbatim>\<open>Value\<close>, in
  the order of \<^verbatim>\<open>Validators\<close> (\<open>List.map_filter\<close> keeps the results that are not
  \<open>None\<close>, in the order of the list), so its length is the number N of failing
  validators.
\<close>

theorem BasicInput_collects_all_failures:
  assumes "\<not> BreaksValidationChain input"
  shows "Errors (snd (BasicInput_FilterAndValidate input)) =
      List.map_filter
        (\<lambda>validator. validator (foldl (\<lambda>value f. f value) (Value input) (Filters input)))
        (Validators input) \<and>
    length (Errors (snd (BasicInput_FilterAndValidate input))) =
      length (filter
        (\<lambda>validator.
           validator (foldl (\<lambda>value f. f value) (Value input) (Filters input)) \<noteq> None)
        (Validators input))"
proof -
  let ?v = "foldl (\<lambda>value f. f value) (Value input) (Filters input)"
  have filtered: "Value (fst (BasicInput_FilterAndValidate input)) = ?v"
    by (simp add: fst_BasicInput_FilterAndValidate)
  have errs: "Errors (snd (BasicInput_FilterAndValidate input)) =
      List.map_filter (\<lambda>validator. validator ?v) (Validators input)"
    using assms by (simp add: Errors_BasicInput_FilterAndValidate filtered)
  have "length (List.map_filter (\<lambda>validator. validator ?v) (Validators input)) =
      length (filter (\<lambda>validator. validator ?v \<noteq> None) (Validators input))"
    by (simp add: List.map_filter_def)
  with errs show ?thesis
    by simp
qed

text \<open>
  On \<open>collecting_field\<close> the filter cuts \<open>''hello world''\<close> to \<open>''hel''\<close>. On that
  value the first, the second and the fourth validator fail and the third passes; the
  three errors are reported, in that order. On the value as given \<open>minLength 4\<close>
  would pass.
\<close>

theorem BasicInput_collects_all_failures_witness:
  "\<not> BreaksValidationChain collecting_field \<and>
   foldl (\<lambda>value f. f value) (Value collecting_field) (Filters collecting_field) = ''hel'' \<and>
   filter (\<lambda>validator. validator ''hel'' \<noteq> None) (Validators collecting_field) =
     [alwaysFail ''a'', minLength 4, alwaysFail ''b''] \<and>
   minLength 4 (Value collecting_field) = None \<and>
   Errors (snd (BasicInput_FilterAndValidate collecting_field)) =
     List.map_filter (\<lambda>validator. validator ''hel'') (Validators collecting_field) \<and>
   length (Errors (snd (BasicInput_FilterAndValidate collecting_field))) = 3 \<and>
   Errors (snd (BasicInput_FilterAndValidate collecting_field)) =
     [''a'', ''too short'', ''b'']"
proof -
  have all: "\<not> BreaksValidationChain collecting_field"
    by (simp add: collecting_field_def)
  have v: "foldl (\<lambda>value f. f value) (Value collecting_field) (Filters collecting_field) =
      ''hel''"
    by (simp add: collecting_field_def)
  have failing: "filter (\<lambda>validator. validator ''hel'' \<noteq> None) (Validators collecting_field) =
      [alwaysFail ''a'', minLength 4, alwaysFail ''b'']"
    by (simp add: collecting_field_def alwaysFail_def minLength_def)
  have raw: "minLength 4 (Value collecting_field) = None"
    by (simp add: collecting_field_def minLength_def)
  have run: "Errors (snd (BasicInput_FilterAndValidate collecting_field)) =
      [''a'', ''too short'', ''b'']"
    by (simp add: collecting_field_def BasicInput_FilterAndValidate_def NewValidationError_def
        alwaysFail_def minLength_def)
  note collected = BasicInput_collects_all_failures [OF all, unfolded v]
  from collected
  have "length (Errors (snd (BasicInput_FilterAndValidate collecting_field))) =
      length (filter (\<lambda>validator. validator ''hel'' \<noteq> None) (Validators collecting_field))"
    by (rule conjunct2)
  also have "\<dots> = 3"
    unfolding failing by simp
  finally have n: "length (Errors (snd (BasicInput_FilterAndValidate collecting_field))) = 3" .
  from collected all v failing raw n run show ?thesis
    by blast
qed

text \<open>
  C6. A BasicInput all of whose validators pass on the filtered value: the returned
  ValidationError is empty, and the returned input is the given one with its
  \<^verbatim>\<open>Value\<close> replaced by the filters applied from left to right, each to the result
  of the one before.
\<close>

theorem BasicInput_all_pass:
  assumes "\<forall>validator \<in> set (Validators input).
      validator (foldl (\<lambda>value f. f value) (Value input) (Filters input)) = None"
  shows "BasicInput_FilterAndValidate input =
      (input\<lparr>Value := foldl (\<lambda>value f. f value) (Value input) (Filters input)\<rparr>,
       ValidationError [] []) \<and>
    Empty (snd (BasicInput_FilterAndValidate input)) \<and>
    Value (fst (BasicInput_FilterAndValidate input)) =
      foldl (\<lambda>value f. f value) (Value input) (Filters input)"
proof -
  let ?v = "foldl (\<lambda>value f. f value) (Value input) (Filters input)"
  have fst: "fst (BasicInput_FilterAndValidate input) = input\<lparr>Value := ?v\<rparr>"
    by (rule fst_BasicInput_FilterAndValidate)
  from assms have "List.map_filter (\<lambda>validator. validator ?v) (Validators input) = []"
    by (rule map_filter_all_None)
  then have "Errors (snd (BasicInput_FilterAndValidate input)) = []"
    by (simp add: Errors_BasicInput_FilterAndValidate fst Let_def)
  then have snd: "snd (BasicInput_FilterAndValidate input) = ValidationError [] []"
    using Children_BasicInput_FilterAndValidate [of input]
    by (cases "snd (BasicInput_FilterAndValidate input)") simp
  from fst snd show ?thesis
    by (simp add: prod_eq_iff)
qed

text \<open>
  On \<open>valid_field\<close> the value \<open>''hello''\<close> is reversed and then cut to three
  characters, which the validator accepts.
\<close>

theorem BasicInput_all_pass_witness:
  "Validators valid_field = [minLength 3] \<and>
   minLength 3 (foldl (\<lambda>value f. f value) (Value valid_field) (Filters valid_field)) = None \<and>
   BasicInput_FilterAndValidate valid_field =
     (valid_field\<lparr>Value := ''oll''\<rparr>, ValidationError [] []) \<and>
   Empty (snd (BasicInput_FilterAndValidate valid_field)) \<and>
   Value (fst (BasicInput_FilterAndValidate valid_field)) = take 3 (rev ''hello'')"
proof -
  have pass: "\<forall>validator \<in> set (Validators valid_field).
      validator (foldl (\<lambda>value f. f value) (Value valid_field) (Filters valid_field)) = None"
    by (simp add: valid_field_def minLength_def)
  have v: "foldl (\<lambda>value f. f value) (Value valid_field) (Filters valid_field) = ''oll''"
    by (simp add: valid_field_def)
  from BasicInput_all_pass [OF pass] pass show ?thesis
    by (simp add: v) (simp add: valid_field_def)
qed

text \<open>
  C9. Whatever its filters, validators and flag, the ValidationError that a BasicInput
  returns has no children.
\<close>

theorem BasicInput_errors_is_leaf:
  "Children (snd (BasicInput_FilterAndValidate input)) = []"
  by (rule Children_BasicInput_FilterAndValidate)

subsection \<open>Emptiness of a ValidationError\<close>

lemma Empty_range_iff:
  "Empty_range children \<longleftrightarrow> (\<forall>child \<in> snd ` set children. Empty child)"
  by (induction children) (auto split: if_splits)

lemma Empty_unfold: "Empty errs \<longleftrightarrow> Errors errs = [] \<and> Empty_range (Children errs)"
  by (cases errs; cases "Children errs") auto




lemma Empty_nilable_nilable:
  fixes errs :: "'e ValidationError"
    and children :: "(string \<times> 'e ValidationError) list"
  shows "Empty_nilable (nilable errs) = Inr (Empty errs)"
    and "Empty_range_nilable (nilable_range children) = Inr (Empty_range children)"
  by (induction errs and children rule: Empty_Empty_range.induct) auto

lemma no_nil_nilable:
  fixes errs :: "'e ValidationError"
    and children :: "(string \<times> 'e ValidationError) list"
  shows "no_nil (nilable errs)"
    and "no_nil_range (nilable_range children)"
  by (induction errs and children rule: nilable_nilable_range.induct) auto




text \<open>
  C10. \<^verbatim>\<open>Error()\<close> returns the empty string exactly when \<^verbatim>\<open>Empty()\<close> is true; for
  a tree that is not empty it returns the formatted text, which holds at least the
  separator of the format and so is not the empty string.
\<close>

theorem Error_empty_iff_Empty:
  "(Error fmt_errors fmt_children errs = [] \<longleftrightarrow> Empty errs) \<and>
   (if Empty errs then Error fmt_errors fmt_children errs = []
    else Error fmt_errors fmt_children errs =
           fmt_errors (Errors errs) @ '', '' @ fmt_children (Children errs) \<and>
         2 \<le> length (Error fmt_errors fmt_children errs))"
  by (simp add: Error_def Sprintf_q_q_def)

subsection \<open>The loop of a BasicInputGroup\<close>

text \<open>
  One turn of the loop, and what the loop leaves in \<open>filteredGroup\<close> and in
  \<open>errs\<close>, from any state it may start in.
\<close>

lemma set_update_subset: "set (AList.update k v al) \<subseteq> insert (k, v) (set al)"
  by (induction al) auto

lemma range_BasicInputGroup_step:
  "range_BasicInputGroup ((fieldName, input) # rest) (filteredGroup, errs) =
     range_BasicInputGroup rest
       (AList.update fieldName (fst (BasicInput_FilterAndValidate input)) filteredGroup,
        if \<not> Empty (snd (BasicInput_FilterAndValidate input))
        then ValidationError (Errors errs)
               (AList.update fieldName (snd (BasicInput_FilterAndValidate input)) (Children errs))
        else errs)"
  by (simp add: Let_def split_beta)

lemma Errors_range_BasicInputGroup:
  "Errors (snd (range_BasicInputGroup rest (filteredGroup, errs))) = Errors errs"
proof (induction rest arbitrary: filteredGroup errs)
  case Nil
  show ?case by simp
next
  case (Cons entry rest)
  obtain fieldName input where entry: "entry = (fieldName, input)"
    by (cases entry)
  show ?case
    unfolding entry range_BasicInputGroup_step by (simp add: Cons.IH)
qed

lemma Children_range_BasicInputGroup_cases:
  "(name, child) \<in> set (Children (snd (range_BasicInputGroup rest (filteredGroup, errs)))) \<Longrightarrow>
   (name, child) \<in> set (Children errs) \<or>
   (\<exists>input. (name, input) \<in> set rest \<and> child = snd (BasicInput_FilterAndValidate input) \<and>
      \<not> Empty child)"
proof (induction rest arbitrary: filteredGroup errs)
  case Nil
  then show ?case by simp
next
  case (Cons entry rest)
  obtain fieldName input where entry: "entry = (fieldName, input)"
    by (cases entry)
  let ?filtered = "AList.update fieldName (fst (BasicInput_FilterAndValidate input)) filteredGroup"
  let ?valErrs = "snd (BasicInput_FilterAndValidate input)"
  show ?case
  proof (cases "Empty ?valErrs")
    case True
    with Cons.prems
    have "(name, child) \<in> set (Children (snd (range_BasicInputGroup rest (?filtered, errs))))"
      unfolding entry range_BasicInputGroup_step by simp
    from Cons.IH [OF this] show ?thesis
      by (auto simp: entry)
  next
    case False
    let ?errs = "ValidationError (Errors errs) (AList.update fieldName ?valErrs (Children errs))"
    from False Cons.prems
    have "(name, child) \<in> set (Children (snd (range_BasicInputGroup rest (?filtered, ?errs))))"
      unfolding entry range_BasicInputGroup_step by simp
    from Cons.IH [OF this]
    have "(name, child) \<in> set (AList.update fieldName ?valErrs (Children errs)) \<or>
      (\<exists>input. (name, input) \<in> set rest \<and> child = snd (BasicInput_FilterAndValidate input) \<and>
        \<not> Empty child)"
      by simp
    moreover have "(name, child) \<in> set (AList.update fieldName ?valErrs (Children errs)) \<Longrightarrow>
      (name, child) = (fieldName, ?valErrs) \<or> (name, child) \<in> set (Children errs)"
      using set_update_subset [of fieldName ?valErrs "Children errs"] by blast
    ultimately show ?thesis
      using False by (auto simp: entry)
  qed
qed

lemma map_of_Children_range_BasicInputGroup:
  "distinct (map fst rest) \<Longrightarrow>
   map_of (Children (snd (range_BasicInputGroup rest (filteredGroup, errs)))) name =
     (case map_of rest name of
        None \<Rightarrow> map_of (Children errs) name
      | Some input \<Rightarrow>
          if \<not> Empty (snd (BasicInput_FilterAndValidate input))
          then Some (snd (BasicInput_FilterAndValidate input))
          else map_of (Children errs) name)"
proof (induction rest arbitrary: filteredGroup errs)
  case Nil
  show ?case by simp
next
  case (Cons entry rest)
  obtain fieldName input where entry: "entry = (fieldName, input)"
    by (cases entry)
  from Cons.prems have fresh: "map_of rest fieldName = None" and rest: "distinct (map fst rest)"
    by (auto simp: entry map_of_eq_None_iff)
  show ?case
    unfolding entry range_BasicInputGroup_step
    using fresh by (auto simp: Cons.IH [OF rest] update_conv' split: option.split)
qed

lemma map_of_fst_range_BasicInputGroup:
  "distinct (map fst rest) \<Longrightarrow>
   map_of (fst (range_BasicInputGroup rest (filteredGroup, errs))) name =
     (case map_of rest name of
        None \<Rightarrow> map_of filteredGroup name
      | Some input \<Rightarrow> Some (fst (BasicInput_FilterAndValidate input)))"
proof (induction rest arbitrary: filteredGroup errs)
  case Nil
  show ?case by simp
next
  case (Cons entry rest)
  obtain fieldName input where entry: "entry = (fieldName, input)"
    by (cases entry)
  from Cons.prems have fresh: "map_of rest fieldName = None" and rest: "distinct (map fst rest)"
    by (auto simp: entry map_of_eq_None_iff)
  show ?case
    unfolding entry range_BasicInputGroup_step
    using fresh by (auto simp: Cons.IH [OF rest] update_conv' split: option.split)
qed

lemma keys_fst_range_BasicInputGroup:
  "fst ` set (fst (range_BasicInputGroup rest (filteredGroup, errs))) =
     fst ` set filteredGroup \<union> fst ` set rest"
proof (induction rest arbitrary: filteredGroup errs)
  case Nil
  show ?case by simp
next
  case (Cons entry rest)
  obtain fieldName input where entry: "entry = (fieldName, input)"
    by (cases entry)
  show ?case
    unfolding entry range_BasicInputGroup_step by (simp add: Cons.IH dom_update)
qed

lemma distinct_fst_range_BasicInputGroup:
  "distinct (map fst filteredGroup) \<Longrightarrow>
   distinct (map fst (fst (range_BasicInputGroup rest (filteredGroup, errs))))"
proof (induction rest arbitrary: filteredGroup errs)
  case Nil
  then show ?case by simp
next
  case (Cons entry rest)
  obtain fieldName input where entry: "entry = (fieldName, input)"
    by (cases entry)
  from Cons.prems show ?case
    unfolding entry range_BasicInputGroup_step by (intro Cons.IH) (simp add: distinct_update)
qed

lemma Children_BasicInputGroup_FilterAndValidate_cases:
  assumes "(name, child) \<in> set (Children (snd (BasicInputGroup_FilterAndValidate ig)))"
  shows "\<exists>input. (name, input) \<in> set ig \<and> child = snd (BasicInput_FilterAndValidate input) \<and>
    \<not> Empty child \<and> Children child = [] \<and> Errors child \<noteq> []"
proof -
  from assms Children_range_BasicInputGroup_cases [of name child ig "[]" "NewValidationError None None"]
  obtain input where input: "(name, input) \<in> set ig"
    and child: "child = snd (BasicInput_FilterAndValidate input)" and nonempty: "\<not> Empty child"
    by (auto simp: BasicInputGroup_FilterAndValidate_def NewValidationError_def)
  from child have leaf: "Children child = []"
    by (simp add: Children_BasicInput_FilterAndValidate)
  with nonempty have "Errors child \<noteq> []"
    by (subst (asm) Empty_unfold) simp
  with input child nonempty leaf show ?thesis
    by blast
qed

lemma name_age_group_result:
  "BasicInputGroup_FilterAndValidate name_age_group =
     ([(''name'', valid_field\<lparr>Value := ''oll''\<rparr>), (''age'', too_young_field)],
      ValidationError [] [(''age'', ValidationError [''too young''] [])])"
  by (simp add: name_age_group_def BasicInputGroup_FilterAndValidate_def Let_def
      BasicInput_FilterAndValidate_def NewValidationError_def valid_field_def
      too_young_field_def alwaysFail_def minLength_def)

text \<open>
  C4. For a BasicInputGroup (each field name once), the \<^verbatim>\<open>Children\<close> of the returned
  ValidationError has an entry for a field name exactly when that member's own
  \<^verbatim>\<open>FilterAndValidate\<close> returned a ValidationError that is not empty, and the entry
  is that ValidationError; no empty child is stored; the \<^verbatim>\<open>Errors\<close> of the group's
  own ValidationError is empty.
\<close>

theorem BasicInputGroup_children_exactly_failing_members:
  assumes "distinct (map fst ig)"
  shows "Errors (snd (BasicInputGroup_FilterAndValidate ig)) = [] \<and>
    (name \<in> fst ` set (Children (snd (BasicInputGroup_FilterAndValidate ig))) \<longleftrightarrow>
       (\<exists>input. map_of ig name = Some input \<and>
          \<not> Empty (snd (BasicInput_FilterAndValidate input)))) \<and>
    map_of (Children (snd (BasicInputGroup_FilterAndValidate ig))) name =
      (case map_of ig name of
         None \<Rightarrow> None
       | Some input \<Rightarrow>
           if Empty (snd (BasicInput_FilterAndValidate input)) then None
           else Some (snd (BasicInput_FilterAndValidate input))) \<and>
    (\<forall>child \<in> snd ` set (Children (snd (BasicInputGroup_FilterAndValidate ig))).
       \<not> Empty child)"
proof -
  let ?errs = "snd (BasicInputGroup_FilterAndValidate ig)"
  have problems: "Errors ?errs = []"
    by (simp add: BasicInputGroup_FilterAndValidate_def Errors_range_BasicInputGroup
        NewValidationError_def)
  have lookup: "map_of (Children ?errs) name =
      (case map_of ig name of
         None \<Rightarrow> None
       | Some input \<Rightarrow>
           if Empty (snd (BasicInput_FilterAndValidate input)) then None
           else Some (snd (BasicInput_FilterAndValidate input)))"
    using assms
    by (simp add: BasicInputGroup_FilterAndValidate_def map_of_Children_range_BasicInputGroup
        NewValidationError_def split: option.split)
  have "name \<in> fst ` set (Children ?errs) \<longleftrightarrow> map_of (Children ?errs) name \<noteq> None"
    by (simp add: map_of_eq_None_iff)
  also have "\<dots> \<longleftrightarrow> (\<exists>input. map_of ig name = Some input \<and>
      \<not> Empty (snd (BasicInput_FilterAndValidate input)))"
    by (simp add: lookup split: option.split)
  finally have present: "name \<in> fst ` set (Children ?errs) \<longleftrightarrow>
      (\<exists>input. map_of ig name = Some input \<and>
        \<not> Empty (snd (BasicInput_FilterAndValidate input)))" .
  have stored: "\<forall>child \<in> snd ` set (Children ?errs). \<not> Empty child"
    using Children_BasicInputGroup_FilterAndValidate_cases [of _ _ ig] by force
  from problems present lookup stored show ?thesis
    by blast
qed

text \<open>
  In \<open>name_age_group\<close> the member \<open>''age''\<close> fails and \<open>''name''\<close> passes: only
  \<open>''age''\<close> has a child.
\<close>

theorem BasicInputGroup_children_exactly_failing_members_witness:
  "distinct (map fst name_age_group) \<and>
   Errors (snd (BasicInputGroup_FilterAndValidate name_age_group)) = [] \<and>
   ''age'' \<in> fst ` set (Children (snd (BasicInputGroup_FilterAndValidate name_age_group))) \<and>
   map_of name_age_group ''age'' = Some too_young_field \<and>
   \<not> Empty (snd (BasicInput_FilterAndValidate too_young_field)) \<and>
   ''name'' \<notin> fst ` set (Children (snd (BasicInputGroup_FilterAndValidate name_age_group))) \<and>
   map_of name_age_group ''name'' = Some valid_field \<and>
   Empty (snd (BasicInput_FilterAndValidate valid_field)) \<and>
   map_of (Children (snd (BasicInputGroup_FilterAndValidate name_age_group))) ''age'' =
     Some (ValidationError [''too young''] [])"
proof -
  have keys: "distinct (map fst name_age_group)"
    by (simp add: name_age_group_def)
  have age: "map_of name_age_group ''age'' = Some too_young_field"
    and name: "map_of name_age_group ''name'' = Some valid_field"
    by (simp_all add: name_age_group_def)
  have bad: "snd (BasicInput_FilterAndValidate too_young_field) = ValidationError [''too young''] []"
    by (simp add: BasicInput_FilterAndValidate_def NewValidationError_def too_young_field_def
        alwaysFail_def)
  have good: "snd (BasicInput_FilterAndValidate valid_field) = ValidationError [] []"
    by (simp add: BasicInput_FilterAndValidate_def NewValidationError_def valid_field_def
        minLength_def)
  from BasicInputGroup_children_exactly_failing_members [OF keys, of "''age''"]
    BasicInputGroup_children_exactly_failing_members [OF keys, of "''name''"]
    keys age name
  show ?thesis
    by (simp add: bad good)
qed

text \<open>
  C8. The group returned by \<^verbatim>\<open>BasicInputGroup.FilterAndValidate\<close> has exactly the
  field names of the given group (each field name once), none added and none removed,
  and each name is mapped to its member as filtered by the member's own
  \<^verbatim>\<open>FilterAndValidate\<close>.
\<close>

theorem BasicInputGroup_preserves_field_names:
  assumes "distinct (map fst ig)"
  shows "fst ` set (fst (BasicInputGroup_FilterAndValidate ig)) = fst ` set ig \<and>
    distinct (map fst (fst (BasicInputGroup_FilterAndValidate ig))) \<and>
    map_of (fst (BasicInputGroup_FilterAndValidate ig)) name =
      map_option (\<lambda>input. fst (BasicInput_FilterAndValidate input)) (map_of ig name)"
  using assms
  by (simp add: BasicInputGroup_FilterAndValidate_def keys_fst_range_BasicInputGroup
      distinct_fst_range_BasicInputGroup map_of_fst_range_BasicInputGroup split: option.split)

text \<open>
  \<open>name_age_group\<close> keeps its two names, and \<open>''name''\<close> now holds the filtered
  value.
\<close>

theorem BasicInputGroup_preserves_field_names_witness:
  "distinct (map fst name_age_group) \<and>
   fst ` set (fst (BasicInputGroup_FilterAndValidate name_age_group)) = {''name'', ''age''} \<and>
   fst ` set name_age_group = {''name'', ''age''} \<and>
   distinct (map fst (fst (BasicInputGroup_FilterAndValidate name_age_group))) \<and>
   map_of (fst (BasicInputGroup_FilterAndValidate name_age_group)) ''name'' =
     Some (valid_field\<lparr>Value := ''oll''\<rparr>)"
proof -
  have keys: "distinct (map fst name_age_group)"
    by (simp add: name_age_group_def)
  have names: "fst ` set name_age_group = {''name'', ''age''}"
    by (simp add: name_age_group_def)
  have name: "map_of name_age_group ''name'' = Some valid_field"
    by (simp add: name_age_group_def)
  have good: "fst (BasicInput_FilterAndValidate valid_field) = valid_field\<lparr>Value := ''oll''\<rparr>"
    by (simp add: fst_BasicInput_FilterAndValidate) (simp add: valid_field_def)
  from BasicInputGroup_preserves_field_names [OF keys, of "''name''"] keys names
  show ?thesis
    by (simp add: name good)
qed

text \<open>
  C7. \<^verbatim>\<open>Value(fieldName)\<close> returns the value of the member stored under
  \<open>fieldName\<close> when there is one, and panics exactly when the group has no such
  field name; so the panic cannot happen when the name exists.
\<close>

theorem BasicInputGroup_Value_panics_iff_missing:
  "(\<forall>input. map_of ig fieldName = Some input \<longrightarrow>
      BasicInputGroup_Value ig fieldName = Inr (Value input)) \<and>
   (isl (BasicInputGroup_Value ig fieldName) \<longleftrightarrow> fieldName \<notin> fst ` set ig) \<and>
   (BasicInputGroup_Value ig fieldName = Inl (Panic ''Key does not exist'') \<longleftrightarrow>
      fieldName \<notin> fst ` set ig)"
  by (auto simp: BasicInputGroup_Value_def map_of_eq_None_iff [symmetric] split: option.split)

text \<open>
  \<open>name_age_group\<close> has a field \<open>''age''\<close> and no field \<open>''email''\<close>.
\<close>

theorem BasicInputGroup_Value_panics_iff_missing_witness:
  "map_of name_age_group ''age'' = Some too_young_field \<and>
   BasicInputGroup_Value name_age_group ''age'' = Inr ''12'' \<and>
   ''email'' \<notin> fst ` set name_age_group \<and>
   BasicInputGroup_Value name_age_group ''email'' = Inl (Panic ''Key does not exist'')"
proof -
  have age: "map_of name_age_group ''age'' = Some too_young_field"
    by (simp add: name_age_group_def)
  have email: "''email'' \<notin> fst ` set name_age_group"
    by (simp add: name_age_group_def)
  from BasicInputGroup_Value_panics_iff_missing [of name_age_group "''age''"]
    BasicInputGroup_Value_panics_iff_missing [of name_age_group "''email''"] age email
  show ?thesis
    by (simp add: too_young_field_def)
qed

subsection \<open>Depth of the tree a BasicInputGroup returns\<close>

text \<open>
  C1, as the code has it. The members of a BasicInputGroup are BasicInput structs, so
  a group cannot hold a group. The ValidationError that
  \<^verbatim>\<open>BasicInputGroup.FilterAndValidate\<close> returns has depth at most two: every child
  it stores under a field name is the ValidationError of a BasicInput member of that
  name, with at least one error and no children of its own.
\<close>

theorem BasicInputGroup_children_are_leaves:
  "\<forall>(name, child) \<in> set (Children (snd (BasicInputGroup_FilterAndValidate ig))).
     Children child = [] \<and> Errors child \<noteq> [] \<and>
     (\<exists>input. (name, input) \<in> set ig \<and> child = snd (BasicInput_FilterAndValidate input))"
  using Children_BasicInputGroup_FilterAndValidate_cases [of _ _ ig] by blast

text \<open>
  The only child of the tree for \<open>name_age_group\<close> is the leaf of \<open>''age''\<close>.
\<close>

theorem BasicInputGroup_children_are_leaves_witness:
  "Children (snd (BasicInputGroup_FilterAndValidate name_age_group)) =
     [(''age'', ValidationError [''too young''] [])] \<and>
   Children (ValidationError [''too young''] []) = ([] :: (string \<times> string ValidationError) list) \<and>
   (''age'', too_young_field) \<in> set name_age_group \<and>
   snd (BasicInput_FilterAndValidate too_young_field) = ValidationError [''too young''] []"
  using BasicInputGroup_children_are_leaves [of name_age_group]
  by (simp add: name_age_group_result)
    (simp add: name_age_group_def BasicInput_FilterAndValidate_def NewValidationError_def
      too_young_field_def alwaysFail_def)

text \<open>
  C1, as the claim states it: filtering and validating a group would give a tree whose
  child for a member has children of its own (the shape
  \<^verbatim>\<open>{"user": {children: {"email": ...}}}\<close>). No group gives such a tree, under
  any field name.
\<close>

theorem BasicInputGroup_nested_children_counterexample:
  "\<not> (\<exists>(ig :: (string, string) BasicInputGroup) name child.
        map_of (Children (snd (BasicInputGroup_FilterAndValidate ig))) name = Some child \<and>
        Children child \<noteq> [])"
proof
  assume "\<exists>(ig :: (string, string) BasicInputGroup) name child.
        map_of (Children (snd (BasicInputGroup_FilterAndValidate ig))) name = Some child \<and>
        Children child \<noteq> []"
  then obtain ig :: "(string, string) BasicInputGroup" and name child where
    stored: "map_of (Children (snd (BasicInputGroup_FilterAndValidate ig))) name = Some child"
    and nested: "Children child \<noteq> []"
    by blast
  from stored have "(name, child) \<in> set (Children (snd (BasicInputGroup_FilterAndValidate ig)))"
    by (rule map_of_SomeD)
  from Children_BasicInputGroup_FilterAndValidate_cases [OF this] nested show False
    by blast
qed

end
